theory Spec2Isabelle
  imports Main
begin

section \<open>Python values and built-ins used by pytex.py\<close>

text \<open>
  A Python character is modelled by the \<open>char\<close> that carries its code point, which
  covers the code points below 256; every literal of pytex.py lies in that range
  (the comment after the abntex2cite package uses U+00E7, U+00F5 and U+00E3).
  The backslash cannot be written inside a string literal and is \<open>bs\<close> below.
\<close>

abbreviation bs :: char where
  "bs \<equiv> CHR 0x5C"

abbreviation tab :: char where
  "tab \<equiv> CHR 0x09"

text \<open>The exceptions that the code of pytex.py can raise.\<close>

datatype error = TypeError | ValueError | AttributeError | IndexError | Exception | OSError

definition and_then :: "error + 'a \<Rightarrow> ('a \<Rightarrow> error + 'b) \<Rightarrow> error + 'b" where
  "and_then r f = (case r of Inl e \<Rightarrow> Inl e | Inr a \<Rightarrow> f a)"

text \<open>
  The operator \<open>fmt % args\<close> on strings, for the conversions the source uses: \<open>%s\<close>
  takes the next argument, \<open>%%\<close> is a percent sign. A conversion with no argument left
  raises TypeError (not enough arguments for format string), an argument left over at
  the end raises TypeError (not all arguments converted), a \<open>%\<close> that ends the string
  raises ValueError (incomplete format). Flags, widths and the other conversion types
  are outside this model, which reads them as an unsupported format character
  (ValueError); the format strings of pytex.py contain \<open>%s\<close> only, and a theorem below
  that lets caller text into a format string assumes that text free of \<open>%\<close>.
\<close>

fun percent_format :: "string \<Rightarrow> string list \<Rightarrow> error + string" where
  "percent_format [] args = (if args = [] then Inr [] else Inl TypeError)"
| "percent_format [c] args =
     (if c = CHR ''%'' then Inl ValueError
      else and_then (percent_format [] args) (\<lambda>r. Inr (c # r)))"
| "percent_format (c # d # cs) args =
     (if c = CHR ''%'' then
        (if d = CHR ''%'' then and_then (percent_format cs args) (\<lambda>r. Inr (CHR ''%'' # r))
         else if d = CHR ''s'' then
           (case args of
              [] \<Rightarrow> Inl TypeError
            | a # rest \<Rightarrow> and_then (percent_format cs rest) (\<lambda>r. Inr (a @ r)))
         else Inl ValueError)
      else and_then (percent_format (d # cs) args) (\<lambda>r. Inr (c # r)))"

text \<open>\<open>fmt % arg\<close> with a single string on the right: the argument tuple is \<open>(arg,)\<close>.\<close>

definition percent :: "string \<Rightarrow> string \<Rightarrow> error + string" where
  "percent fmt arg = percent_format fmt [arg]"

section \<open>Text runs\<close>

record LaTeXText =
  text_content :: string

definition LaTeXText_init :: "string \<Rightarrow> LaTeXText" where
  "LaTeXText_init content = \<lparr>text_content = content\<rparr>"

definition Text :: "string \<Rightarrow> bool \<Rightarrow> bool \<Rightarrow> bool \<Rightarrow> bool \<Rightarrow> error + LaTeXText" where
  "Text content emph bold underline italic =
     and_then (if italic then percent (bs # ''textit{%s}'') content else Inr content) (\<lambda>content.
     and_then (if underline then percent (bs # ''underline{%s}'') content else Inr content) (\<lambda>content.
     and_then (if bold then percent (bs # ''textbf{%s}'') content else Inr content) (\<lambda>content.
     and_then (if emph then percent (bs # ''emph{%s}'') content else Inr content) (\<lambda>content.
     Inr (LaTeXText_init content)))))"

text \<open>The markup \<open>\cmd{s}\<close> when the flag is set, \<open>s\<close> itself otherwise.\<close>

definition styled :: "bool \<Rightarrow> string \<Rightarrow> string \<Rightarrow> string" where
  "styled flag cmd s = (if flag then bs # cmd @ ''{'' @ s @ ''}'' else s)"

section \<open>Strings and numbers\<close>

text \<open>\<open>str(n)\<close> for a Python integer: decimal digits, a minus sign when negative.\<close>

definition digit_char :: "nat \<Rightarrow> char" where
  "digit_char n = char_of (48 + n)"

function str_nat :: "nat \<Rightarrow> string" where
  "str_nat n = (if n < 10 then [digit_char n] else str_nat (n div 10) @ [digit_char (n mod 10)])"
  by pat_completeness auto
termination
  by (relation "measure id") auto

declare str_nat.simps [simp del]

definition str_int :: "int \<Rightarrow> string" where
  "str_int i = (if i < 0 then CHR ''-'' # str_nat (nat (- i)) else str_nat (nat i))"

text \<open>
  \<open>s.lower()\<close>: below code point 256 the letters with a lowercase form are A to Z and
  U+00C0 to U+00DE without the multiplication sign U+00D7, each 32 below its
  lowercase form.
\<close>

definition lower_char :: "char \<Rightarrow> char" where
  "lower_char c =
     (let n = (of_char c :: nat)
      in if (65 \<le> n \<and> n \<le> 90) \<or> (192 \<le> n \<and> n \<le> 222 \<and> n \<noteq> 215)
         then char_of (n + 32) else c)"

definition lower :: "string \<Rightarrow> string" where
  "lower s = map lower_char s"

text \<open>
  \<open>s.strip()\<close> removes the characters for which \<open>isspace\<close> holds from both ends:
  below code point 256 these are U+0009 to U+000D, U+001C to U+0020, U+0085 and U+00A0.
\<close>

definition isspace :: "char \<Rightarrow> bool" where
  "isspace c =
     (let n = (of_char c :: nat)
      in (9 \<le> n \<and> n \<le> 13) \<or> (28 \<le> n \<and> n \<le> 32) \<or> n = 133 \<or> n = 160)"

definition strip :: "string \<Rightarrow> string" where
  "strip s = rev (dropWhile isspace (rev (dropWhile isspace s)))"

text \<open>
  \<open>s.split(sep)\<close> for a separator of one character: the pieces between the
  separators, one more than there are separators. The result is never empty, so the
  second branch of the case is never taken.
\<close>

fun split :: "string \<Rightarrow> char \<Rightarrow> string list" where
  "split [] sep = [[]]"
| "split (c # cs) sep =
     (if c = sep then [] # split cs sep
      else (case split cs sep of p # ps \<Rightarrow> (c # p) # ps | [] \<Rightarrow> [[c]]))"

definition endswith :: "string \<Rightarrow> string \<Rightarrow> bool" where
  "endswith s suffix = (length suffix \<le> length s \<and> drop (length s - length suffix) s = suffix)"

section \<open>Math expressions\<close>

record LaTeXMath =
  content :: string
  inline :: bool

text \<open>
  \<open>_LaTeXMath.__init__(self, content, inline)\<close>: neither parameter has a default. The
  second argument is \<open>None\<close> here when the call does not pass it, and such a call raises
  TypeError (missing 1 required positional argument).
\<close>

definition LaTeXMath_init :: "string \<Rightarrow> bool option \<Rightarrow> error + LaTeXMath" where
  "LaTeXMath_init c i =
     (case i of
        None \<Rightarrow> Inl TypeError
      | Some b \<Rightarrow> Inr \<lparr>content = c, inline = b\<rparr>)"

text \<open>
  The values that the constructors and operators receive: a string, a number (the
  integers stand for \<open>Number\<close>), a math expression, a text run.
\<close>

datatype pyval = Str string | Num int | Math LaTeXMath | Txt LaTeXText

fun str :: "pyval \<Rightarrow> string" where
  "str (Str s) = s"
| "str (Num n) = str_int n"
| "str (Math m) = content m"
| "str (Txt t) = text_content t"

text \<open>
  Truth value of a Python object: a string is true when not empty, a number when not
  zero; the two classes define neither \<open>__bool__\<close> nor \<open>__len__\<close>, so their objects
  are true.
\<close>

fun truth :: "pyval \<Rightarrow> bool" where
  "truth (Str s) = (s \<noteq> [])"
| "truth (Num n) = (n \<noteq> 0)"
| "truth (Math m) = True"
| "truth (Txt t) = True"

text \<open>\<open>__add__\<close> calls the constructor with one argument, \<open>__neg__\<close> with two.\<close>

definition add :: "LaTeXMath \<Rightarrow> pyval \<Rightarrow> error + LaTeXMath" where
  "add self math = LaTeXMath_init (content self @ str math) None"

definition neg :: "LaTeXMath \<Rightarrow> error + LaTeXMath" where
  "neg self = LaTeXMath_init (''-'' @ content self) (Some (inline self))"

text \<open>
  \<open>n, d = str(fraction).split('/')\<close>: unpacking a list that does not have two elements
  raises ValueError.
\<close>

definition Fraction :: "pyval \<Rightarrow> bool \<Rightarrow> error + LaTeXMath" where
  "Fraction fraction inl =
     (case split (str fraction) (CHR ''/'') of
        [n, d] \<Rightarrow>
          LaTeXMath_init (bs # ''frac'' @ ''{'' @ strip n @ ''}'' @ ''{'' @ strip d @ ''}'') (Some inl)
      | _ \<Rightarrow> Inl ValueError)"

definition Sqrt :: "pyval \<Rightarrow> bool \<Rightarrow> error + LaTeXMath" where
  "Sqrt rooting inl = LaTeXMath_init (bs # ''sqrt{'' @ str rooting @ ''}'') (Some inl)"

text \<open>
  The two limits are tested with \<open>is None\<close>, the result with \<open>if result:\<close>, its truth
  value.
\<close>

definition Integral ::
  "pyval \<Rightarrow> pyval option \<Rightarrow> pyval option \<Rightarrow> pyval option \<Rightarrow> bool \<Rightarrow> error + LaTeXMath" where
  "Integral integrand lower_limit upper_limit result inl =
     and_then (percent ''{%s}'' (str integrand)) (\<lambda>integrand.
     and_then
       (case (lower_limit, upper_limit) of
          (None, None) \<Rightarrow> Inr ([] @ bs # ''int '' @ integrand)
        | (Some l, Some u) \<Rightarrow>
            and_then (percent ''{%s}'' (str l)) (\<lambda>lower_limit.
            and_then (percent ''{%s}'' (str u)) (\<lambda>upper_limit.
            Inr ([] @ bs # ''int_'' @ lower_limit @ ''^'' @ upper_limit @ '' '' @ integrand)))
        | _ \<Rightarrow> Inl Exception) (\<lambda>c.
     and_then
       (case result of
          None \<Rightarrow> Inr c
        | Some r \<Rightarrow>
            if truth r
            then and_then (percent ''{%s}'' (str r)) (\<lambda>result. Inr (c @ '' = '' @ result))
            else Inr c) (\<lambda>c.
     LaTeXMath_init c (Some inl))))"

section \<open>The document\<close>

text \<open>
  \<open>title\<close>, \<open>author\<close>, \<open>thanks\<close> and \<open>date\<close> default to \<open>None\<close>; \<open>font_size\<close> is an
  integer (default 12). \<open>opts\<close> is the set built by \<open>__init__\<close>.
\<close>

record LaTeXDocument =
  path :: string
  document_type :: string
  font_size :: int
  paper_type :: string
  title :: "string option"
  author :: "string option"
  thanks :: "string option"
  date :: "string option"
  make_title :: bool
  opts :: "string set"

definition LaTeXDocument_init ::
  "string \<Rightarrow> string \<Rightarrow> int \<Rightarrow> string \<Rightarrow> string option \<Rightarrow> string option \<Rightarrow> string option \<Rightarrow>
   string option \<Rightarrow> bool \<Rightarrow> string list \<Rightarrow> LaTeXDocument" where
  "LaTeXDocument_init p dt fs pt t a th d mt os =
     \<lparr>path = p, document_type = dt, font_size = fs, paper_type = pt, title = t, author = a,
      thanks = th, date = d, make_title = mt, opts = set (map lower os)\<rparr>"

text \<open>\<open>if self.title:\<close> on a field that is \<open>None\<close> or a string.\<close>

definition nonempty :: "string option \<Rightarrow> bool" where
  "nonempty v = (case v of None \<Rightarrow> False | Some s \<Rightarrow> s \<noteq> [])"

text \<open>
  The document class line comes from an f-string, which puts \<open>font_size\<close> and
  \<open>paper_type\<close> in and turns \<open>{{%s}}\<close> into \<open>{%s}\<close>, and then from \<open>%\<close> with
  \<open>document_type\<close>. In the author line with thanks, \<open>%\<close> associates to the left:
  the format string with two \<open>%s\<close> is first applied to the author alone.
\<close>

definition start_new_document :: "LaTeXDocument \<Rightarrow> error + string list" where
  "start_new_document self =
     and_then
       (percent (bs # ''documentclass['' @ str_int (font_size self) @ ''pt, '' @ paper_type self
                   @ '']{%s}\<newline>\<newline>'') (document_type self)) (\<lambda>doc_class.
     let lines = [doc_class, bs # ''usepackage[utf8]{inputenc}\<newline>''];
         lines =
           (if ''abnt'' \<in> opts self
            then lines @
              [bs # ''usepackage[alf, abnt-emphasize=bf, recuo=0cm, abnt-etal-cite=2, abnt-etal-list=0]{abntex2cite} % Cita''
                 @ [CHR 0xE7, CHR 0xF5] @ ''es padr'' @ [CHR 0xE3] @ ''o ABNT\<newline>'']
            else lines);
         lines =
           (if ''figures'' \<in> opts self
            then (let lines = lines @ [bs # ''usepackage{graphicx}\<newline>'']
                  in if ''float'' \<in> opts self then lines @ [bs # ''usepackage{float}\<newline>''] else lines)
            else lines);
         lines =
           (if ''indentfirst'' \<in> opts self then lines @ [bs # ''usepackage{indentfirst}\<newline>'']
            else lines);
         lines = lines @ [''\<newline>'']
     in
     and_then
       (if nonempty (title self)
        then and_then (percent (bs # ''title{%s}\<newline>'') (the (title self))) (\<lambda>l. Inr (lines @ [l]))
        else Inr lines) (\<lambda>lines.
     and_then
       (if nonempty (author self)
        then (if nonempty (thanks self)
              then and_then
                     (and_then (percent (bs # ''author{%s'' @ bs # ''thanks{%s}}\<newline>'') (the (author self)))
                        (\<lambda>fmt. percent fmt (the (thanks self))))
                     (\<lambda>l. Inr (lines @ [l]))
              else and_then (percent (bs # ''author{%s}\<newline>'') (the (author self)))
                     (\<lambda>l. Inr (lines @ [l])))
        else Inr lines) (\<lambda>lines.
     and_then
       (if nonempty (date self)
        then and_then (percent (bs # ''date{%s}\<newline>'') (the (date self))) (\<lambda>l. Inr (lines @ [l]))
        else Inr lines) (\<lambda>lines.
     let lines = lines @ [bs # ''begin{document}\<newline>''];
         lines = (if make_title self then lines @ [bs # ''maketitle\<newline>''] else lines);
         lines = lines @ [bs # ''frenchspacing\<newline>\<newline>'']
     in Inr lines))))"

text \<open>
  The files, and the paths that \<open>open(file, mode='w')\<close> refuses with OSError.
\<close>

record world =
  files :: "string \<rightharpoonup> string"
  refused :: "string set"

text \<open>
  \<open>write_document\<close> appends to the list it is given, which is the builder's own list:
  the list after the call is part of the result, also when \<open>open\<close> raises.
  \<open>lines[-1]\<close> on an empty list raises IndexError.
\<close>

definition write_document ::
  "LaTeXDocument \<Rightarrow> string list \<Rightarrow> world \<Rightarrow> (error + unit) \<times> string list \<times> world" where
  "write_document self lines w =
     (if lines = [] then (Inl IndexError, lines, w)
      else
        let lines = (if last lines \<noteq> bs # ''end{document}'' then lines @ [bs # ''end{document}''] else lines)
        in if path self \<in> refused w then (Inl OSError, lines, w)
           else (Inr (), lines, w\<lparr>files := (files w)(path self \<mapsto> concat lines)\<rparr>))"

section \<open>The builder\<close>

text \<open>\<open>doc_content\<close> is the attribute \<open>_content\<close>.\<close>

record PyTeX =
  document :: LaTeXDocument
  doc_content :: "string list"

definition PyTeX_init ::
  "string \<Rightarrow> string \<Rightarrow> int \<Rightarrow> string \<Rightarrow> string option \<Rightarrow> string option \<Rightarrow> string option \<Rightarrow>
   string option \<Rightarrow> bool \<Rightarrow> string list \<Rightarrow> error + PyTeX" where
  "PyTeX_init p dt fs pt t a th d mt os =
     (let doc = LaTeXDocument_init p dt fs pt t a th d mt os
      in and_then (start_new_document doc) (\<lambda>c. Inr \<lparr>document = doc, doc_content = c\<rparr>))"

definition PyTeX_write_document :: "PyTeX \<Rightarrow> world \<Rightarrow> (error + unit) \<times> PyTeX \<times> world" where
  "PyTeX_write_document self w =
     (case write_document (document self) (doc_content self) w of
        (r, lines, w') \<Rightarrow> (r, self\<lparr>doc_content := lines\<rparr>, w'))"

definition remove_end_content :: "PyTeX \<Rightarrow> error + PyTeX" where
  "remove_end_content self =
     (if doc_content self = [] then Inl IndexError
      else if last (doc_content self) = bs # ''end{document}''
      then Inr (self\<lparr>doc_content := butlast (doc_content self)\<rparr>)
      else Inr self)"

text \<open>
  \<open>append_content\<close>: a math expression gives its flag and its content string; then
  \<open>content.endswith\<close> is called on what \<open>content\<close> is now, which is a string for a
  string or a math expression, and raises AttributeError for a text run or a number,
  which have no such method. The closing marker is removed before that.
\<close>

definition append_content :: "PyTeX \<Rightarrow> pyval \<Rightarrow> (error + unit) \<times> PyTeX" where
  "append_content self c =
     (case remove_end_content self of
        Inl e \<Rightarrow> (Inl e, self)
      | Inr self \<Rightarrow>
          let (inl, c) = (case c of Math m \<Rightarrow> (Some (inline m), Str (content m)) | _ \<Rightarrow> (None, c));
              c = (case inl of
                     None \<Rightarrow> c
                   | Some i \<Rightarrow>
                       if i
                       then Str (bs # ''begin{math}\<newline>'' @ (tab # str c @ ''\<newline>'') @ bs # ''end{math}'')
                       else Str (bs # ''begin{equation}\<newline>'' @ (tab # str c @ ''\<newline>'')
                                 @ bs # ''end{equation}''))
          in (case c of
                Str s \<Rightarrow>
                  let s = (if \<not> endswith s ''\<newline>'' then s @ ''\<newline>'' else s);
                      s = s @ ''\<newline>''
                  in (Inr (), self\<lparr>doc_content := doc_content self @ [s]\<rparr>)
              | _ \<Rightarrow> (Inl AttributeError, self)))"

text \<open>\<open>n\<close> calls of \<open>write_document\<close> in a row, whether or not a call raises.\<close>

fun writes :: "nat \<Rightarrow> PyTeX \<Rightarrow> world \<Rightarrow> PyTeX \<times> world" where
  "writes 0 b w = (b, w)"
| "writes (Suc n) b w =
     (case PyTeX_write_document b w of (r, b', w') \<Rightarrow> writes n b' w')"

text \<open>
  The builder states: the one the constructor returns, and the ones that
  \<open>append_content\<close> and \<open>write_document\<close> leave behind, with or without an exception.
\<close>

inductive builder_state :: "PyTeX \<Rightarrow> bool" where
  constructed: "PyTeX_init p dt fs pt t a th d mt os = Inr b \<Longrightarrow> builder_state b"
| appended: "builder_state b \<Longrightarrow> builder_state (snd (append_content b c))"
| written: "builder_state b \<Longrightarrow> builder_state (fst (snd (PyTeX_write_document b w)))"

section \<open>The lines of the document, by name\<close>

abbreviation usepackage_abntex2cite :: string where
  "usepackage_abntex2cite \<equiv>
     bs # ''usepackage[alf, abnt-emphasize=bf, recuo=0cm, abnt-etal-cite=2, abnt-etal-list=0]{abntex2cite} % Cita''
       @ [CHR 0xE7, CHR 0xF5] @ ''es padr'' @ [CHR 0xE3] @ ''o ABNT\<newline>''"

abbreviation usepackage_graphicx :: string where
  "usepackage_graphicx \<equiv> bs # ''usepackage{graphicx}\<newline>''"

abbreviation usepackage_float :: string where
  "usepackage_float \<equiv> bs # ''usepackage{float}\<newline>''"

abbreviation usepackage_indentfirst :: string where
  "usepackage_indentfirst \<equiv> bs # ''usepackage{indentfirst}\<newline>''"

abbreviation begin_document :: string where
  "begin_document \<equiv> bs # ''begin{document}\<newline>''"

abbreviation end_document :: string where
  "end_document \<equiv> bs # ''end{document}''"

text \<open>The package lines that a set of options selects, in the order of the code.\<close>

definition package_lines :: "string set \<Rightarrow> string list" where
  "package_lines os =
     (if ''abnt'' \<in> os then [usepackage_abntex2cite] else [])
     @ (if ''figures'' \<in> os then [usepackage_graphicx] else [])
     @ (if ''figures'' \<in> os \<and> ''float'' \<in> os then [usepackage_float] else [])
     @ (if ''indentfirst'' \<in> os then [usepackage_indentfirst] else [])"

definition is_package_line :: "string \<Rightarrow> bool" where
  "is_package_line l =
     (l = usepackage_abntex2cite \<or> l = usepackage_graphicx \<or> l = usepackage_float
      \<or> l = usepackage_indentfirst)"

text \<open>The lines without a closing marker at the end.\<close>

definition without_end :: "string list \<Rightarrow> string list" where
  "without_end ls = (if ls \<noteq> [] \<and> last ls = end_document then butlast ls else ls)"

text \<open>
  The lines have the closing marker at most as the last one, and a line before it.
\<close>

definition marker_last_only :: "string list \<Rightarrow> bool" where
  "marker_last_only ls = (without_end ls \<noteq> [] \<and> end_document \<notin> set (without_end ls))"

text \<open>The title, author and date lines when no thanks are given.\<close>

definition title_lines :: "LaTeXDocument \<Rightarrow> string list" where
  "title_lines d =
     (if nonempty (title d) then [bs # ''title{'' @ the (title d) @ ''}\<newline>''] else [])
     @ (if nonempty (author d) then [bs # ''author{'' @ the (author d) @ ''}\<newline>''] else [])
     @ (if nonempty (date d) then [bs # ''date{'' @ the (date d) @ ''}\<newline>''] else [])"

text \<open>The format string of the document class line, after the f-string is evaluated.\<close>

definition doc_class_format :: "LaTeXDocument \<Rightarrow> string" where
  "doc_class_format d =
     bs # ''documentclass['' @ str_int (font_size d) @ ''pt, '' @ paper_type d @ '']{%s}\<newline>\<newline>''"

text \<open>
  A line that starts like the lines made with \<open>%\<close>: \<open>\t\<close> (title), \<open>\a\<close> (author),
  \<open>\d\<close> (date, documentclass).
\<close>

definition formatted :: "string \<Rightarrow> bool" where
  "formatted l = (take 2 l = [bs, CHR ''t''] \<or> take 2 l = [bs, CHR ''a''] \<or> take 2 l = [bs, CHR ''d''])"

text \<open>
  Two strings that differ only in letter case: the same length, and at each position
  the same character or a character and its lowercase form.
\<close>

definition same_up_to_case :: "string \<Rightarrow> string \<Rightarrow> bool" where
  "same_up_to_case s s' = list_all2 (\<lambda>c c'. c = c' \<or> lower_char c = c' \<or> c = lower_char c') s s'"

text \<open>
  The builder that \<open>PyTeX('f.tex', 'article')\<close> returns, all other parameters at their
  defaults.
\<close>

abbreviation plain_article :: PyTeX where
  "plain_article \<equiv>
     \<lparr>document = LaTeXDocument_init ''f.tex'' ''article'' 12 ''a4paper'' None None None None False [],
      doc_content =
        [bs # ''documentclass[12pt, a4paper]{article}\<newline>\<newline>'',
         bs # ''usepackage[utf8]{inputenc}\<newline>'',
         ''\<newline>'',
         bs # ''begin{document}\<newline>'',
         bs # ''frenchspacing\<newline>\<newline>'']\<rparr>"

section \<open>Formatting lemmas\<close>

lemma and_then_Inr [simp]: "and_then (Inr a) f = f a"
  by (simp add: and_then_def)

lemma and_then_Inl [simp]: "and_then (Inl e) f = Inl e"
  by (simp add: and_then_def)

lemma percent_format_literal:
  "c \<noteq> CHR ''%'' \<Longrightarrow>
   percent_format (c # cs) args = and_then (percent_format cs args) (\<lambda>r. Inr (c # r))"
  by (cases cs) simp_all

lemma percent_format_s:
  "percent_format (CHR ''%'' # CHR ''s'' # cs) (a # rest) =
   and_then (percent_format cs rest) (\<lambda>r. Inr (a @ r))"
  by simp

lemma percent_textit: "percent (bs # ''textit{%s}'') c = Inr (bs # ''textit{'' @ c @ ''}'')"
  by (simp add: percent_def)

lemma percent_underline:
  "percent (bs # ''underline{%s}'') c = Inr (bs # ''underline{'' @ c @ ''}'')"
  by (simp add: percent_def)

lemma percent_textbf: "percent (bs # ''textbf{%s}'') c = Inr (bs # ''textbf{'' @ c @ ''}'')"
  by (simp add: percent_def)

lemma percent_emph: "percent (bs # ''emph{%s}'') c = Inr (bs # ''emph{'' @ c @ ''}'')"
  by (simp add: percent_def)

section \<open>Text runs: the nesting order\<close>

text \<open>
  C9. For every content string and every combination of the four style flags, Text
  returns without an error the content wrapped, each wrapper only if its flag is set,
  in the order italic innermost, then underline, then bold, then emphasis outermost;
  with all four flags false the content is the string given.
\<close>

theorem Text_nesting_order:
  "Text c emph bold underline italic =
     Inr \<lparr>text_content =
       styled emph ''emph'' (styled bold ''textbf''
         (styled underline ''underline'' (styled italic ''textit'' c)))\<rparr>
   \<and> Text c False False False False = Inr \<lparr>text_content = c\<rparr>"
  by (simp add: Text_def styled_def LaTeXText_init_def percent_textit percent_underline
      percent_textbf percent_emph)

theorem Text_nesting_order_witness:
  "Text ''x'' True True True True =
     Inr \<lparr>text_content = bs # ''emph{'' @ bs # ''textbf{'' @ bs # ''underline{'' @ bs # ''textit{x}}}}''\<rparr>
   \<and> Text ''x'' True False False True =
     Inr \<lparr>text_content = bs # ''emph{'' @ bs # ''textit{x}}''\<rparr>"
  using Text_nesting_order [of "''x''" True True True True]
    Text_nesting_order [of "''x''" True False False True]
  by (simp add: styled_def)

section \<open>Splitting a string\<close>

lemma percent_braces: "percent ''{%s}'' a = Inr (''{'' @ a @ ''}'')"
  by (simp add: percent_def)

lemma split_not_Nil: "split s sep \<noteq> []"
  by (induction s) (auto split: list.splits)

lemma length_split: "length (split s sep) = Suc (count_list s sep)"
proof (induction s)
  case Nil
  show ?case by simp
next
  case (Cons c cs)
  show ?case
  proof (cases "split cs sep")
    case Nil
    then show ?thesis using split_not_Nil [of cs sep] by simp
  next
    case (Cons p ps)
    then show ?thesis using Cons.IH by simp
  qed
qed

lemma split_no_sep: "sep \<notin> set s \<Longrightarrow> split s sep = [s]"
  by (induction s) auto

lemma split_append_sep:
  "sep \<notin> set n \<Longrightarrow> split (n @ sep # d) sep = n # split d sep"
  by (induction n) auto

lemma split_two: "sep \<notin> set n \<Longrightarrow> sep \<notin> set d \<Longrightarrow> split (n @ sep # d) sep = [n, d]"
  by (simp add: split_append_sep split_no_sep)

lemma split_two_decompose:
  "split s sep = [n, d] \<Longrightarrow> s = n @ sep # d \<and> sep \<notin> set n \<and> sep \<notin> set d"
proof (induction s arbitrary: n)
  case Nil
  then show ?case by simp
next
  case (Cons c cs)
  show ?case
  proof (cases "c = sep")
    case True
    with Cons.prems have n: "n = []" and d: "split cs sep = [d]" by simp_all
    have "count_list cs sep = 0" using length_split [of cs sep] d by simp
    then have "sep \<notin> set cs" by (simp add: count_list_0_iff)
    moreover from this d have "cs = d" by (simp add: split_no_sep)
    ultimately show ?thesis using True n by simp
  next
    case False
    with Cons.prems obtain p where p: "split cs sep = [p, d]" and n: "n = c # p"
      by (auto split: list.splits)
    from Cons.IH [OF p] show ?thesis using False n by simp
  qed
qed

lemma Fraction_Str:
  "Fraction (Str s) i =
     (case split s (CHR ''/'') of
        [n, d] \<Rightarrow> Inr \<lparr>content = bs # ''frac{'' @ strip n @ ''}{'' @ strip d @ ''}'', inline = i\<rparr>
      | _ \<Rightarrow> Inl ValueError)"
  by (simp add: Fraction_def LaTeXMath_init_def split: list.splits)

lemma Fraction_raises_iff:
  "(Fraction (Str s) i = Inl ValueError) = (length (split s (CHR ''/'')) \<noteq> 2)"
  by (auto simp: Fraction_Str split: list.splits)

section \<open>Fractions\<close>

text \<open>
  C3. For every input string \<open>s\<close>, Fraction raises (the ValueError of the unpacking,
  which the specification calls MalformedInputError) if and only if \<open>s\<close> does not
  split at \<open>/\<close> into exactly two parts, that is, unless \<open>s\<close> has exactly one \<open>/\<close>;
  otherwise \<open>s\<close> is \<open>n/d\<close> with no \<open>/\<close> in \<open>n\<close> or \<open>d\<close> and the content is
  \<open>\frac{n}{d}\<close> with both sides stripped of surrounding whitespace. Fraction("6/3")
  and Fraction(" 6 / 3 ") both give \<open>\frac{6}{3}\<close>, and Fraction("6") raises.
\<close>

theorem Fraction_string:
  "(Fraction (Str s) i = Inl ValueError \<longleftrightarrow> length (split s (CHR ''/'')) \<noteq> 2)
   \<and> (length (split s (CHR ''/'')) = 2 \<longleftrightarrow> count_list s (CHR ''/'') = 1)
   \<and> (\<forall>r. Fraction (Str s) i = Inr r \<longrightarrow>
        (\<exists>n d. s = n @ ''/'' @ d \<and> CHR ''/'' \<notin> set n \<and> CHR ''/'' \<notin> set d))
   \<and> (CHR ''/'' \<notin> set n \<and> CHR ''/'' \<notin> set d \<longrightarrow>
        Fraction (Str (n @ ''/'' @ d)) i =
          Inr \<lparr>content = bs # ''frac{'' @ strip n @ ''}{'' @ strip d @ ''}'', inline = i\<rparr>)
   \<and> Fraction (Str ''6/3'') False = Inr \<lparr>content = bs # ''frac{6}{3}'', inline = False\<rparr>
   \<and> Fraction (Str '' 6 / 3 '') False = Inr \<lparr>content = bs # ''frac{6}{3}'', inline = False\<rparr>
   \<and> Fraction (Str ''6'') False = Inl ValueError"
proof -
  have a: "Fraction (Str s) i = Inl ValueError \<longleftrightarrow> length (split s (CHR ''/'')) \<noteq> 2"
    by (rule Fraction_raises_iff)
  have b: "length (split s (CHR ''/'')) = 2 \<longleftrightarrow> count_list s (CHR ''/'') = 1"
    by (simp add: length_split)
  have c: "\<forall>r. Fraction (Str s) i = Inr r \<longrightarrow>
        (\<exists>n d. s = n @ ''/'' @ d \<and> CHR ''/'' \<notin> set n \<and> CHR ''/'' \<notin> set d)"
  proof (intro allI impI)
    fix r assume r: "Fraction (Str s) i = Inr r"
    then obtain n d where "split s (CHR ''/'') = [n, d]"
      by (auto simp: Fraction_Str split: list.splits)
    from split_two_decompose [OF this]
    show "\<exists>n d. s = n @ ''/'' @ d \<and> CHR ''/'' \<notin> set n \<and> CHR ''/'' \<notin> set d"
      by auto
  qed
  have d: "CHR ''/'' \<notin> set n \<and> CHR ''/'' \<notin> set d \<longrightarrow>
        Fraction (Str (n @ ''/'' @ d)) i =
          Inr \<lparr>content = bs # ''frac{'' @ strip n @ ''}{'' @ strip d @ ''}'', inline = i\<rparr>"
    using split_two [of "CHR ''/''" n d] by (simp add: Fraction_Str)
  have e: "Fraction (Str ''6/3'') False = Inr \<lparr>content = bs # ''frac{6}{3}'', inline = False\<rparr>"
    by (simp add: Fraction_Str strip_def isspace_def)
  have f: "Fraction (Str '' 6 / 3 '') False = Inr \<lparr>content = bs # ''frac{6}{3}'', inline = False\<rparr>"
    by (simp add: Fraction_Str strip_def isspace_def)
  have g: "Fraction (Str ''6'') False = Inl ValueError"
    by (simp add: Fraction_Str)
  from a b c d e f g show ?thesis by blast
qed

theorem Fraction_string_witness:
  "length (split ''1 / 2'' (CHR ''/'')) = 2
   \<and> Fraction (Str ''1 / 2'') True = Inr \<lparr>content = bs # ''frac{1}{2}'', inline = True\<rparr>
   \<and> Fraction (Str ''1/2/3'') True = Inl ValueError"
proof -
  have h: "CHR ''/'' \<notin> set ''1 '' \<and> CHR ''/'' \<notin> set '' 2''" by simp
  have l3: "length (split ''1/2/3'' (CHR ''/'')) \<noteq> 2" by simp
  have l2: "length (split ''1 / 2'' (CHR ''/'')) = 2" by simp
  from Fraction_string [of "''1/2/3''" True "''1 ''" "'' 2''"] h l3
  have "Fraction (Str ''1/2/3'') True = Inl ValueError"
    and "Fraction (Str (''1 '' @ ''/'' @ '' 2'')) True =
          Inr \<lparr>content = bs # ''frac{'' @ strip ''1 '' @ ''}{'' @ strip '' 2'' @ ''}'', inline = True\<rparr>"
    by blast+
  then show ?thesis using l2 by (simp add: strip_def isspace_def)
qed

lemma Integral_eval:
  "Integral f lo hi r i =
     (case (lo, hi) of
        (None, None) \<Rightarrow>
          Inr \<lparr>content = bs # ''int {'' @ str f @ ''}'' @
                 (case r of None \<Rightarrow> [] | Some v \<Rightarrow> if truth v then '' = {'' @ str v @ ''}'' else []),
               inline = i\<rparr>
      | (Some l, Some u) \<Rightarrow>
          Inr \<lparr>content = bs # ''int_{'' @ str l @ ''}^{'' @ str u @ ''} {'' @ str f @ ''}'' @
                 (case r of None \<Rightarrow> [] | Some v \<Rightarrow> if truth v then '' = {'' @ str v @ ''}'' else []),
               inline = i\<rparr>
      | _ \<Rightarrow> Inl Exception)"
  by (simp add: Integral_def percent_braces LaTeXMath_init_def split: option.splits)

lemma str_int_0: "str_int 0 = ''0''" by code_simp
lemma str_int_1: "str_int 1 = ''1''" by code_simp
lemma str_int_2: "str_int 2 = ''2''" by code_simp
lemma str_int_3: "str_int 3 = ''3''" by code_simp

section \<open>Integrals\<close>

text \<open>
  C4. For every integrand, Integral raises (the Exception of the last branch, which
  the specification calls InvalidBoundsError) if and only if exactly one of the two
  limits is given, and raises nothing else; with no limit the content is the integral
  without bounds, with both it is the bounded form, each followed by nothing when no
  result is given.
  Integral("x", lower_limit=0) raises, and
  Integral("x", lower_limit=0, upper_limit=1, result="5") has the content
  \<open>\int_{0}^{1} {x} = {5}\<close>.
\<close>

theorem Integral_bounds:
  "(Integral f lo hi r i = Inl Exception \<longleftrightarrow> (lo = None) \<noteq> (hi = None))
   \<and> (\<forall>e. Integral f lo hi r i = Inl e \<longrightarrow> e = Exception)
   \<and> Integral f None None None i = Inr \<lparr>content = bs # ''int {'' @ str f @ ''}'', inline = i\<rparr>
   \<and> Integral f (Some l) (Some u) None i =
       Inr \<lparr>content = bs # ''int_{'' @ str l @ ''}^{'' @ str u @ ''} {'' @ str f @ ''}'', inline = i\<rparr>
   \<and> (\<exists>c. Integral f None None r i = Inr \<lparr>content = bs # ''int {'' @ str f @ ''}'' @ c, inline = i\<rparr>)
   \<and> (\<exists>c. Integral f (Some l) (Some u) r i =
        Inr \<lparr>content = bs # ''int_{'' @ str l @ ''}^{'' @ str u @ ''} {'' @ str f @ ''}'' @ c, inline = i\<rparr>)
   \<and> Integral (Str ''x'') (Some (Num 0)) None None False = Inl Exception
   \<and> Integral (Str ''x'') (Some (Num 0)) (Some (Num 1)) (Some (Str ''5'')) False =
       Inr \<lparr>content = bs # ''int_{0}^{1} {x} = {5}'', inline = False\<rparr>"
  by (simp add: Integral_eval str_int_0 str_int_1 split: option.splits)

theorem Integral_bounds_witness:
  "Integral (Num 1) None (Some (Str ''b'')) None True = Inl Exception
   \<and> Integral (Num 1) None None None True \<noteq> Inl Exception"
  using Integral_bounds [of "Num 1" None "Some (Str ''b'')" None True]
    Integral_bounds [of "Num 1" None None None True]
  by simp

text \<open>
  C6. The claim that a result that is given always ends the content with
  \<open> = {result}\<close> fails on the code: the result is tested by its truth value, so for
  Integral("x", lower_limit=0, upper_limit=1, result=0) the content is
  \<open>\int_{0}^{1} {x}\<close> and does not end with \<open> = {0}\<close>. A result that is the number 0
  or the empty string gives what no result gives.
\<close>

theorem Integral_zero_result:
  "Integral (Str ''x'') (Some (Num 0)) (Some (Num 1)) (Some (Num 0)) False =
     Inr \<lparr>content = bs # ''int_{0}^{1} {x}'', inline = False\<rparr>
   \<and> \<not> endswith (bs # ''int_{0}^{1} {x}'') ('' = {'' @ str (Num 0) @ ''}'')
   \<and> Integral f lo hi (Some (Num 0)) i = Integral f lo hi None i
   \<and> Integral f lo hi (Some (Str [])) i = Integral f lo hi None i"
  by (simp add: Integral_eval str_int_0 str_int_1 endswith_def split: option.splits)

section \<open>Concatenation of math expressions\<close>

text \<open>
  C1. The claim that \<open>m + x\<close> returns a new math expression fails on the code: for
  every math expression \<open>m\<close> and every operand \<open>x\<close> the call raises TypeError, since
  \<open>__add__\<close> calls the constructor without the inline flag; so does
  Sqrt(2) + Sqrt(3). Negation, which passes the flag, returns the expression with a
  minus sign in front and the same flag.
\<close>

theorem add_raises_TypeError:
  "add m x = Inl TypeError
   \<and> Sqrt (Num 2) False = Inr \<lparr>content = bs # ''sqrt{2}'', inline = False\<rparr>
   \<and> Sqrt (Num 3) False = Inr \<lparr>content = bs # ''sqrt{3}'', inline = False\<rparr>
   \<and> add \<lparr>content = bs # ''sqrt{2}'', inline = False\<rparr>
         (Math \<lparr>content = bs # ''sqrt{3}'', inline = False\<rparr>) = Inl TypeError
   \<and> neg m = Inr \<lparr>content = ''-'' @ content m, inline = inline m\<rparr>"
  by (simp add: add_def neg_def Sqrt_def LaTeXMath_init_def str_int_2 str_int_3)

section \<open>Formatting the lines of the document\<close>

lemma percent_format_Inr_Cons:
  "c \<noteq> CHR ''%'' \<Longrightarrow> percent_format (c # cs) args = Inr r \<Longrightarrow>
   \<exists>r'. r = c # r' \<and> percent_format cs args = Inr r'"
  by (cases "percent_format cs args") (simp_all add: percent_format_literal)

lemma percent_format_Inr_prefix2:
  "percent_format (bs # c # cs) args = Inr r \<Longrightarrow> c \<noteq> CHR ''%'' \<Longrightarrow> take 2 r = [bs, c]"
proof -
  assume a: "percent_format (bs # c # cs) args = Inr r" and c: "c \<noteq> CHR ''%''"
  from percent_format_Inr_Cons [OF _ a] obtain r1 where
    r1: "r = bs # r1" "percent_format (c # cs) args = Inr r1" by auto
  from percent_format_Inr_Cons [OF c r1(2)] obtain r2 where "r1 = c # r2" by auto
  with r1 show ?thesis by simp
qed

lemma percent_format_no_percent:
  "CHR ''%'' \<notin> set f \<Longrightarrow> percent_format (f @ g) args = and_then (percent_format g args) (\<lambda>r. Inr (f @ r))"
proof (induction f)
  case Nil
  show ?case by (cases "percent_format g args") simp_all
next
  case (Cons c f)
  then have c: "c \<noteq> CHR ''%''" and f: "CHR ''%'' \<notin> set f" by auto
  have "percent_format ((c # f) @ g) args =
          and_then (percent_format (f @ g) args) (\<lambda>r. Inr (c # r))"
    using percent_format_literal [OF c] by simp
  then show ?case using Cons.IH [OF f]
    by (cases "percent_format g args") simp_all
qed

lemma percent_title: "percent (bs # ''title{%s}\<newline>'') t = Inr (bs # ''title{'' @ t @ ''}\<newline>'')"
  by (simp add: percent_def)

lemma percent_author: "percent (bs # ''author{%s}\<newline>'') t = Inr (bs # ''author{'' @ t @ ''}\<newline>'')"
  by (simp add: percent_def)

lemma percent_date: "percent (bs # ''date{%s}\<newline>'') t = Inr (bs # ''date{'' @ t @ ''}\<newline>'')"
  by (simp add: percent_def)

lemma percent_author_thanks:
  "percent (bs # ''author{%s'' @ bs # ''thanks{%s}}\<newline>'') a = Inl TypeError"
  by (simp add: percent_def)

lemma start_shape:
  fixes dcr :: "error + string"
  assumes "pT = Inr lT" and "pA = Inr lA" and "pD = Inr lD" and "pAT = Inl TypeError"
  shows
    "and_then dcr (\<lambda>doc_class.
       let lines = [doc_class, L0];
           lines = (if a then lines @ [L1] else lines);
           lines = (if f then (let lines = lines @ [L2] in if fl then lines @ [L3] else lines)
                    else lines);
           lines = (if i then lines @ [L4] else lines);
           lines = lines @ [L5]
       in
       and_then (if t then and_then pT (\<lambda>l. Inr (lines @ [l])) else Inr lines) (\<lambda>lines.
       and_then
         (if au
          then (if th then and_then (and_then pAT k) (\<lambda>l. Inr (lines @ [l]))
                else and_then pA (\<lambda>l. Inr (lines @ [l])))
          else Inr lines) (\<lambda>lines.
       and_then (if da then and_then pD (\<lambda>l. Inr (lines @ [l])) else Inr lines) (\<lambda>lines.
       let lines = lines @ [L6];
           lines = (if mt then lines @ [L7] else lines);
           lines = lines @ [L8]
       in Inr lines))))
     = and_then dcr (\<lambda>dc.
         if au \<and> th then Inl TypeError
         else Inr ([dc, L0]
                   @ ((if a then [L1] else []) @ (if f then [L2] else [])
                      @ (if f \<and> fl then [L3] else []) @ (if i then [L4] else []))
                   @ [L5]
                   @ ((if t then [lT] else []) @ (if au then [lA] else []) @ (if da then [lD] else []))
                   @ [L6] @ (if mt then [L7] else []) @ [L8]))"
  by (cases dcr) (simp_all add: Let_def assms)

lemma start_new_document_eq:
  "start_new_document d =
     and_then (percent (doc_class_format d) (document_type d)) (\<lambda>dc.
       if nonempty (author d) \<and> nonempty (thanks d) then Inl TypeError
       else Inr ([dc, bs # ''usepackage[utf8]{inputenc}\<newline>''] @ package_lines (opts d) @ [''\<newline>'']
                 @ title_lines d @ [begin_document]
                 @ (if make_title d then [bs # ''maketitle\<newline>''] else [])
                 @ [bs # ''frenchspacing\<newline>\<newline>'']))"
  unfolding start_new_document_def package_lines_def title_lines_def doc_class_format_def
  by (rule start_shape) (rule percent_title percent_author percent_date percent_author_thanks)+

lemma digit_char_not_percent: "n < 10 \<Longrightarrow> digit_char n \<noteq> CHR ''%''"
proof
  assume n: "n < 10" and "digit_char n = CHR ''%''"
  then have "(of_char (char_of (48 + n)) :: nat) = of_char (CHR ''%'')"
    by (simp add: digit_char_def)
  then show False using n by simp
qed

lemma str_nat_no_percent: "CHR ''%'' \<notin> set (str_nat n)"
proof (induction n rule: str_nat.induct)
  case (1 n)
  show ?case
  proof (cases "n < 10")
    case True
    then show ?thesis
      using digit_char_not_percent [of n] by (subst str_nat.simps) auto
  next
    case False
    then show ?thesis
      using "1.IH" digit_char_not_percent [of "n mod 10"]
      by (subst str_nat.simps) auto
  qed
qed

lemma str_int_no_percent: "CHR ''%'' \<notin> set (str_int i)"
  by (simp add: str_int_def str_nat_no_percent)

lemma doc_class_returns:
  assumes "CHR ''%'' \<notin> set (paper_type d)"
  shows "percent (doc_class_format d) (document_type d) =
           Inr (bs # ''documentclass['' @ str_int (font_size d) @ ''pt, '' @ paper_type d @ '']{''
                @ document_type d @ ''}\<newline>\<newline>'')"
proof -
  let ?f = "bs # ''documentclass['' @ str_int (font_size d) @ ''pt, '' @ paper_type d @ '']{''"
  have f: "CHR ''%'' \<notin> set ?f" using assms str_int_no_percent [of "font_size d"] by simp
  have "doc_class_format d = ?f @ ''%s}\<newline>\<newline>''" by (simp add: doc_class_format_def)
  then show ?thesis
    using percent_format_no_percent [OF f, of "''%s}\<newline>\<newline>''" "[document_type d]"]
    by (simp add: percent_def)
qed

lemma doc_class_prefix:
  assumes "percent (doc_class_format d) (document_type d) = Inr dc"
  shows "take 2 dc = [bs, CHR ''d'']"
proof -
  let ?cs = "''ocumentclass['' @ str_int (font_size d) @ ''pt, '' @ paper_type d @ '']{%s}\<newline>\<newline>''"
  have "doc_class_format d = bs # CHR ''d'' # ?cs" by (simp add: doc_class_format_def)
  with assms have "percent_format (bs # CHR ''d'' # ?cs) [document_type d] = Inr dc"
    by (simp only: percent_def)
  then show ?thesis by (rule percent_format_Inr_prefix2) simp
qed

lemma title_lines_prefix:
  "l \<in> set (title_lines d) \<Longrightarrow>
   take 2 l = [bs, CHR ''t''] \<or> take 2 l = [bs, CHR ''a''] \<or> take 2 l = [bs, CHR ''d'']"
  by (auto simp: title_lines_def split: if_splits)

lemma formatted_not_fixed:
  assumes "formatted l"
  shows "l \<noteq> begin_document" and "l \<noteq> end_document" and "\<not> is_package_line l"
  using assms by (auto simp: formatted_def is_package_line_def)

lemma start_new_document_shape:
  assumes "start_new_document d = Inr ls"
  shows "\<exists>dc. formatted dc \<and>
           ls = [dc, bs # ''usepackage[utf8]{inputenc}\<newline>''] @ package_lines (opts d) @ [''\<newline>'']
                 @ title_lines d @ [begin_document]
                 @ (if make_title d then [bs # ''maketitle\<newline>''] else [])
                 @ [bs # ''frenchspacing\<newline>\<newline>'']"
proof (cases "percent (doc_class_format d) (document_type d)")
  case (Inl e)
  with assms show ?thesis by (simp add: start_new_document_eq)
next
  case (Inr dc)
  from doc_class_prefix [OF Inr] have f: "formatted dc" by (simp add: formatted_def)
  have "start_new_document d =
          (if nonempty (author d) \<and> nonempty (thanks d) then Inl TypeError
           else Inr ([dc, bs # ''usepackage[utf8]{inputenc}\<newline>''] @ package_lines (opts d) @ [''\<newline>'']
                 @ title_lines d @ [begin_document]
                 @ (if make_title d then [bs # ''maketitle\<newline>''] else [])
                 @ [bs # ''frenchspacing\<newline>\<newline>'']))"
    by (simp only: start_new_document_eq Inr and_then_Inr)
  with assms have "ls = [dc, bs # ''usepackage[utf8]{inputenc}\<newline>''] @ package_lines (opts d) @ [''\<newline>'']
                 @ title_lines d @ [begin_document]
                 @ (if make_title d then [bs # ''maketitle\<newline>''] else [])
                 @ [bs # ''frenchspacing\<newline>\<newline>'']"
    by (cases "nonempty (author d) \<and> nonempty (thanks d)") simp_all
  with f show ?thesis by blast
qed

lemma title_lines_formatted: "l \<in> set (title_lines d) \<Longrightarrow> formatted l"
  using title_lines_prefix [of l d] by (simp add: formatted_def)

lemma count_formatted:
  assumes "\<forall>l \<in> set ls. formatted l"
  shows "count_list ls begin_document = 0"
proof -
  have "begin_document \<notin> set ls" using assms formatted_not_fixed(1) by blast
  then show ?thesis by (simp add: count_list_0_iff)
qed

lemma filter_formatted:
  assumes "\<forall>l \<in> set ls. formatted l"
  shows "filter is_package_line ls = []"
  using assms formatted_not_fixed(3) by (simp add: filter_empty_conv)

lemma filter_package_lines: "filter is_package_line (package_lines os) = package_lines os"
  by (simp add: package_lines_def is_package_line_def)

lemma count_package_lines: "count_list (package_lines os) begin_document = 0"
  by (simp add: package_lines_def)

lemma package_lines_mem:
  "(usepackage_abntex2cite \<in> set (package_lines os)) = (''abnt'' \<in> os)"
  "(usepackage_graphicx \<in> set (package_lines os)) = (''figures'' \<in> os)"
  "(usepackage_float \<in> set (package_lines os)) = (''figures'' \<in> os \<and> ''float'' \<in> os)"
  "(usepackage_indentfirst \<in> set (package_lines os)) = (''indentfirst'' \<in> os)"
  by (simp_all add: package_lines_def)

lemma is_package_line_fixed:
  "\<not> is_package_line (bs # ''usepackage[utf8]{inputenc}\<newline>'')"
  "\<not> is_package_line ''\<newline>''"
  "\<not> is_package_line begin_document"
  "\<not> is_package_line (bs # ''maketitle\<newline>'')"
  "\<not> is_package_line (bs # ''frenchspacing\<newline>\<newline>'')"
  by (simp_all add: is_package_line_def)

lemma start_new_document_facts:
  assumes "start_new_document d = Inr ls"
  shows "count_list ls begin_document = 1"
    and "filter is_package_line ls = package_lines (opts d)"
proof -
  from start_new_document_shape [OF assms] obtain dc where dc: "formatted dc"
    and ls: "ls = [dc, bs # ''usepackage[utf8]{inputenc}\<newline>''] @ package_lines (opts d) @ [''\<newline>'']
                 @ title_lines d @ [begin_document]
                 @ (if make_title d then [bs # ''maketitle\<newline>''] else [])
                 @ [bs # ''frenchspacing\<newline>\<newline>'']"
    by blast
  have t: "\<forall>l \<in> set (title_lines d). formatted l" using title_lines_formatted by blast
  have dcb: "dc \<noteq> begin_document" using formatted_not_fixed(1) [OF dc] .
  have dcp: "\<not> is_package_line dc" using formatted_not_fixed(3) [OF dc] .
  show "count_list ls begin_document = 1"
    unfolding ls using dcb count_formatted [OF t] count_package_lines [of "opts d"]
    by simp
  show "filter is_package_line ls = package_lines (opts d)"
    unfolding ls using dcp filter_formatted [OF t] filter_package_lines [of "opts d"]
    by (simp add: is_package_line_fixed)
qed

lemma start_new_document_returns:
  assumes "\<not> (nonempty (author d) \<and> nonempty (thanks d))" and "CHR ''%'' \<notin> set (paper_type d)"
  shows "\<exists>ls. start_new_document d = Inr ls"
  using assms(1) by (simp add: start_new_document_eq doc_class_returns [OF assms(2)])

lemma mem_filter_package:
  "is_package_line l \<Longrightarrow> (l \<in> set ls) = (l \<in> set (filter is_package_line ls))"
  by simp

lemma lower_float: "lower ''float'' = ''float''" by code_simp
lemma lower_figures: "lower ''figures'' = ''figures''" by code_simp
lemma str_int_12: "str_int 12 = ''12''" by code_simp

section \<open>The initial lines\<close>

text \<open>
  C5, as amended. \<open>start_new_document\<close> returns lines whenever author and thanks are
  not both non-empty and \<open>paper_type\<close> has no percent sign. Whenever it returns lines,
  they contain the line that opens the document exactly once, and their package lines
  are, in this order: the abntex2cite line if and only if \<open>abnt\<close> is in the option set,
  the graphicx line if and only if \<open>figures\<close> is, the float line if and only if both
  \<open>figures\<close> and \<open>float\<close> are, the indentfirst line if and only if \<open>indentfirst\<close> is.
\<close>

theorem start_new_document_package_lines:
  "(\<not> (nonempty (author d) \<and> nonempty (thanks d)) \<and> CHR ''%'' \<notin> set (paper_type d)
      \<longrightarrow> (\<exists>ls. start_new_document d = Inr ls))
   \<and> (\<forall>ls. start_new_document d = Inr ls \<longrightarrow>
         count_list ls begin_document = 1
       \<and> filter is_package_line ls = package_lines (opts d)
       \<and> (usepackage_abntex2cite \<in> set ls \<longleftrightarrow> ''abnt'' \<in> opts d)
       \<and> (usepackage_graphicx \<in> set ls \<longleftrightarrow> ''figures'' \<in> opts d)
       \<and> (usepackage_float \<in> set ls \<longleftrightarrow> ''figures'' \<in> opts d \<and> ''float'' \<in> opts d)
       \<and> (usepackage_indentfirst \<in> set ls \<longleftrightarrow> ''indentfirst'' \<in> opts d))"
proof (intro conjI allI impI)
  assume "\<not> (nonempty (author d) \<and> nonempty (thanks d)) \<and> CHR ''%'' \<notin> set (paper_type d)"
  then show "\<exists>ls. start_new_document d = Inr ls"
    using start_new_document_returns by blast
next
  fix ls assume r: "start_new_document d = Inr ls"
  note f = start_new_document_facts(2) [OF r]
  show "count_list ls begin_document = 1" by (rule start_new_document_facts(1) [OF r])
  show "filter is_package_line ls = package_lines (opts d)" by (rule f)
  show "usepackage_abntex2cite \<in> set ls \<longleftrightarrow> ''abnt'' \<in> opts d"
    using mem_filter_package [of usepackage_abntex2cite ls]
    by (simp only: f package_lines_mem) (simp add: is_package_line_def)
  show "usepackage_graphicx \<in> set ls \<longleftrightarrow> ''figures'' \<in> opts d"
    using mem_filter_package [of usepackage_graphicx ls]
    by (simp only: f package_lines_mem) (simp add: is_package_line_def)
  show "usepackage_float \<in> set ls \<longleftrightarrow> ''figures'' \<in> opts d \<and> ''float'' \<in> opts d"
    using mem_filter_package [of usepackage_float ls]
    by (simp only: f package_lines_mem) (simp add: is_package_line_def)
  show "usepackage_indentfirst \<in> set ls \<longleftrightarrow> ''indentfirst'' \<in> opts d"
    using mem_filter_package [of usepackage_indentfirst ls]
    by (simp only: f package_lines_mem) (simp add: is_package_line_def)
qed

text \<open>The option list \<open>['float', 'Figures']\<close> gives the graphicx line, then the float line.\<close>

theorem start_new_document_package_lines_witness:
  "start_new_document
     (LaTeXDocument_init ''f.tex'' ''article'' 12 ''a4paper'' None None None None False [''float'', ''Figures'']) \<noteq> Inl TypeError
   \<and> (\<exists>ls. start_new_document
     (LaTeXDocument_init ''f.tex'' ''article'' 12 ''a4paper'' None None None None False [''float'', ''Figures'']) = Inr ls
     \<and> filter is_package_line ls = [usepackage_graphicx, usepackage_float])"
proof -
  let ?d = "LaTeXDocument_init ''f.tex'' ''article'' 12 ''a4paper'' None None None None False [''float'', ''Figures'']"
  have h: "\<not> (nonempty (author ?d) \<and> nonempty (thanks ?d)) \<and> CHR ''%'' \<notin> set (paper_type ?d)"
    by (simp add: LaTeXDocument_init_def nonempty_def)
  have l: "lower ''Figures'' = ''figures''" by code_simp
  have o: "package_lines (opts ?d) = [usepackage_graphicx, usepackage_float]"
    by (simp add: LaTeXDocument_init_def package_lines_def lower_float l)
  from start_new_document_package_lines [of ?d] h o show ?thesis by force
qed

text \<open>
  C5 as stated fails: with the option set \<open>{float}\<close> the flag is in the set and the
  float package line is not among the lines, since the code adds it under \<open>figures\<close>
  only.
\<close>

theorem float_without_figures:
  "''float'' \<in> opts (LaTeXDocument_init ''f.tex'' ''article'' 12 ''a4paper'' None None None None False [''float''])
   \<and> start_new_document
       (LaTeXDocument_init ''f.tex'' ''article'' 12 ''a4paper'' None None None None False [''float'']) =
     Inr [bs # ''documentclass[12pt, a4paper]{article}\<newline>\<newline>'',
          bs # ''usepackage[utf8]{inputenc}\<newline>'',
          ''\<newline>'',
          bs # ''begin{document}\<newline>'',
          bs # ''frenchspacing\<newline>\<newline>'']"
  by (simp add: start_new_document_eq LaTeXDocument_init_def lower_float doc_class_format_def
      str_int_12 percent_def nonempty_def package_lines_def title_lines_def)

text \<open>
  C2. The claim that \<open>start_new_document\<close> returns for every document and emits one
  author line with the thanks inside fails on the code: with author "A" and thanks
  "B" the format string with two \<open>%s\<close> is applied to the author alone, which raises
  TypeError, and so does the constructor of the builder, which calls it.
\<close>

theorem author_with_thanks_raises:
  "start_new_document
     (LaTeXDocument_init ''f.tex'' ''article'' 12 ''a4paper'' None (Some ''A'') (Some ''B'') None False []) =
     Inl TypeError
   \<and> PyTeX_init ''f.tex'' ''article'' 12 ''a4paper'' None (Some ''A'') (Some ''B'') None False [] =
     Inl TypeError"
  by (simp add: PyTeX_init_def start_new_document_eq LaTeXDocument_init_def doc_class_format_def
      str_int_12 percent_def nonempty_def)

section \<open>The closing marker\<close>

lemma without_end_snoc: "x \<noteq> end_document \<Longrightarrow> without_end (ls @ [x]) = ls @ [x]"
  by (simp add: without_end_def)

lemma without_end_snoc_end: "without_end (ls @ [end_document]) = ls"
  by (simp add: without_end_def)

lemma without_end_idem: "end_document \<notin> set ls \<Longrightarrow> without_end ls = ls"
  by (cases ls rule: rev_cases) (auto simp: without_end_def)

lemma marker_last_only_nonempty: "marker_last_only ls \<Longrightarrow> ls \<noteq> []"
  by (auto simp: marker_last_only_def without_end_def)

lemma close_lines:
  "ls \<noteq> [] \<Longrightarrow>
   (if last ls \<noteq> end_document then ls @ [end_document] else ls) = without_end ls @ [end_document]"
  by (cases ls rule: rev_cases) (simp_all add: without_end_def)

lemma remove_end_content_eq:
  "doc_content b \<noteq> [] \<Longrightarrow>
   remove_end_content b = Inr (b\<lparr>doc_content := without_end (doc_content b)\<rparr>)"
  by (simp add: remove_end_content_def without_end_def)

lemma append_content_empty:
  "doc_content b = [] \<Longrightarrow> append_content b c = (Inl IndexError, b)"
  by (simp add: append_content_def remove_end_content_def)

lemma append_content_Str:
  "doc_content b \<noteq> [] \<Longrightarrow>
   append_content b (Str s) =
     (Inr (), b\<lparr>doc_content := without_end (doc_content b)
                  @ [(if endswith s ''\<newline>'' then s else s @ ''\<newline>'') @ ''\<newline>'']\<rparr>)"
  by (simp add: append_content_def remove_end_content_eq Let_def)

lemma append_content_Math:
  "doc_content b \<noteq> [] \<Longrightarrow>
   append_content b (Math m) =
     (Inr (), b\<lparr>doc_content := without_end (doc_content b)
        @ [(if inline m
            then bs # ''begin{math}\<newline>'' @ [tab] @ content m @ ''\<newline>'' @ bs # ''end{math}''
            else bs # ''begin{equation}\<newline>'' @ [tab] @ content m @ ''\<newline>'' @ bs # ''end{equation}'')
           @ ''\<newline>\<newline>'']\<rparr>)"
  by (simp add: append_content_def remove_end_content_eq Let_def endswith_def)

lemma append_content_Txt:
  "doc_content b \<noteq> [] \<Longrightarrow>
   append_content b (Txt t) = (Inl AttributeError, b\<lparr>doc_content := without_end (doc_content b)\<rparr>)"
  by (simp add: append_content_def remove_end_content_eq Let_def)

lemma append_content_Num:
  "doc_content b \<noteq> [] \<Longrightarrow>
   append_content b (Num n) = (Inl AttributeError, b\<lparr>doc_content := without_end (doc_content b)\<rparr>)"
  by (simp add: append_content_def remove_end_content_eq Let_def)

lemma newline_not_end: "s @ ''\<newline>'' \<noteq> end_document"
proof
  assume "s @ ''\<newline>'' = end_document"
  then have "last (s @ ''\<newline>'') = last end_document" by simp
  then show False by simp
qed

lemma newlines_not_end: "s @ ''\<newline>\<newline>'' \<noteq> end_document"
proof
  assume "s @ ''\<newline>\<newline>'' = end_document"
  then have "last (s @ ''\<newline>\<newline>'') = last end_document" by simp
  then show False by simp
qed

lemma append_content_lines:
  assumes "doc_content b \<noteq> []"
  shows "doc_content (snd (append_content b c)) = without_end (doc_content b)
         \<or> (\<exists>x. x \<noteq> end_document
               \<and> doc_content (snd (append_content b c)) = without_end (doc_content b) @ [x])"
proof (cases c)
  case (Str s)
  have "(if endswith s ''\<newline>'' then s else s @ ''\<newline>'') @ ''\<newline>'' \<noteq> end_document"
    by (rule newline_not_end)
  then show ?thesis unfolding Str append_content_Str [OF assms] by simp
next
  case (Num n)
  then show ?thesis using append_content_Num [OF assms, of n] by simp
next
  case (Math m)
  have "(if inline m
            then bs # ''begin{math}\<newline>'' @ [tab] @ content m @ ''\<newline>'' @ bs # ''end{math}''
            else bs # ''begin{equation}\<newline>'' @ [tab] @ content m @ ''\<newline>'' @ bs # ''end{equation}'')
           @ ''\<newline>\<newline>'' \<noteq> end_document"
    by (rule newlines_not_end)
  then show ?thesis unfolding Math append_content_Math [OF assms] by simp
next
  case (Txt t)
  then show ?thesis using append_content_Txt [OF assms, of t] by simp
qed

lemma marker_last_only_append:
  assumes "marker_last_only (doc_content b)"
  shows "marker_last_only (doc_content (snd (append_content b c)))"
proof -
  have ne: "doc_content b \<noteq> []" using assms by (rule marker_last_only_nonempty)
  have w: "without_end (doc_content b) \<noteq> []" "end_document \<notin> set (without_end (doc_content b))"
    using assms by (simp_all add: marker_last_only_def)
  from append_content_lines [OF ne, of c] show ?thesis
  proof
    assume a: "doc_content (snd (append_content b c)) = without_end (doc_content b)"
    show ?thesis unfolding a marker_last_only_def using w by (simp add: without_end_idem)
  next
    assume "\<exists>x. x \<noteq> end_document
               \<and> doc_content (snd (append_content b c)) = without_end (doc_content b) @ [x]"
    then obtain x where n: "x \<noteq> end_document"
      and a: "doc_content (snd (append_content b c)) = without_end (doc_content b) @ [x]"
      by blast
    show ?thesis unfolding a marker_last_only_def using w n by (simp add: without_end_snoc)
  qed
qed

lemma PyTeX_write_document_lines:
  assumes "doc_content b \<noteq> []"
  shows "doc_content (fst (snd (PyTeX_write_document b w))) = without_end (doc_content b) @ [end_document]"
  using close_lines [OF assms] assms
  by (simp add: PyTeX_write_document_def write_document_def Let_def)

lemma marker_last_only_closed:
  "marker_last_only ls \<Longrightarrow> marker_last_only (without_end ls @ [end_document])"
  by (simp add: marker_last_only_def without_end_snoc_end)

lemma marker_last_only_write:
  assumes "marker_last_only (doc_content b)"
  shows "marker_last_only (doc_content (fst (snd (PyTeX_write_document b w))))"
  using marker_last_only_closed [OF assms] PyTeX_write_document_lines [OF marker_last_only_nonempty [OF assms]]
  by simp

lemma package_lines_not_end: "end_document \<notin> set (package_lines os)"
  by (simp add: package_lines_def)

lemma start_new_document_no_end:
  assumes "start_new_document d = Inr ls"
  shows "end_document \<notin> set ls" and "ls \<noteq> []" and "begin_document \<in> set ls"
proof -
  from start_new_document_shape [OF assms] obtain dc where dc: "formatted dc"
    and ls: "ls = [dc, bs # ''usepackage[utf8]{inputenc}\<newline>''] @ package_lines (opts d) @ [''\<newline>'']
                 @ title_lines d @ [begin_document]
                 @ (if make_title d then [bs # ''maketitle\<newline>''] else [])
                 @ [bs # ''frenchspacing\<newline>\<newline>'']"
    by blast
  have t: "end_document \<notin> set (title_lines d)"
    using title_lines_formatted formatted_not_fixed(2) by blast
  show "end_document \<notin> set ls"
    unfolding ls using formatted_not_fixed(2) [OF dc] t package_lines_not_end [of "opts d"] by simp
  show "ls \<noteq> []" unfolding ls by simp
  show "begin_document \<in> set ls" unfolding ls by simp
qed

lemma PyTeX_init_lines:
  assumes "PyTeX_init p dt fs pt t a th d mt os = Inr b"
  shows "start_new_document (LaTeXDocument_init p dt fs pt t a th d mt os) = Inr (doc_content b)"
  using assms
  by (cases "start_new_document (LaTeXDocument_init p dt fs pt t a th d mt os)")
     (auto simp: PyTeX_init_def Let_def)

lemma builder_state_marker: "builder_state b \<Longrightarrow> marker_last_only (doc_content b)"
proof (induction rule: builder_state.induct)
  case (constructed p dt fs pt t a th d mt os b)
  from start_new_document_no_end [OF PyTeX_init_lines [OF constructed]]
  show ?case by (simp add: marker_last_only_def without_end_idem)
next
  case (appended b c)
  then show ?case by (simp add: marker_last_only_append)
next
  case (written b w)
  then show ?case by (simp add: marker_last_only_write)
qed

lemma writes_lines:
  "marker_last_only (doc_content b) \<Longrightarrow> 0 < n \<Longrightarrow>
   doc_content (fst (writes n b w)) = without_end (doc_content b) @ [end_document]"
proof (induction n arbitrary: b w)
  case 0
  then show ?case by simp
next
  case (Suc n)
  obtain r b' w' where p: "PyTeX_write_document b w = (r, b', w')" by (cases "PyTeX_write_document b w")
  have l: "doc_content b' = without_end (doc_content b) @ [end_document]"
    using PyTeX_write_document_lines [OF marker_last_only_nonempty [OF Suc.prems(1)], of w] p by simp
  have m: "marker_last_only (doc_content b')"
    using marker_last_only_write [OF Suc.prems(1), of w] p by simp
  show ?case
  proof (cases n)
    case 0
    then show ?thesis using p l by simp
  next
    case (Suc k)
    then have "doc_content (fst (writes n b' w')) = without_end (doc_content b') @ [end_document]"
      using Suc.IH [OF m, of w'] by simp
    then show ?thesis using p l by (simp add: without_end_snoc_end)
  qed
qed

lemma lower_char_idem: "lower_char (lower_char c) = lower_char c"
  by (auto simp: lower_char_def Let_def)

lemma same_up_to_case_lower: "same_up_to_case s s' \<Longrightarrow> lower s = lower s'"
  unfolding same_up_to_case_def lower_def
  by (induction s s' rule: list_all2_induct) (auto simp: lower_char_idem)

lemma same_up_to_case_map_lower: "list_all2 same_up_to_case os os' \<Longrightarrow> map lower os = map lower os'"
  by (induction os os' rule: list_all2_induct) (auto simp: same_up_to_case_lower)

lemma plain_article_init:
  "PyTeX_init ''f.tex'' ''article'' 12 ''a4paper'' None None None None False [] = Inr plain_article"
  by (simp add: PyTeX_init_def start_new_document_eq LaTeXDocument_init_def doc_class_format_def
      str_int_12 percent_def nonempty_def package_lines_def title_lines_def)

section \<open>Writing the document\<close>

text \<open>
  C7. For every builder state, \<open>write_document\<close> appends the closing marker only when
  the last line is not the closing marker already, and writes the concatenated lines
  to the path when the file can be opened. After any number \<open>n > 0\<close> of calls in a
  row the lines are those after the first call, contain the closing marker exactly
  once, and end with it. For a builder just constructed (nothing appended) the lines
  written are the initial lines, which contain the line that opens the document and
  no closing marker, followed by the closing marker.
\<close>

theorem write_document_closes_once:
  assumes "builder_state b"
  shows "doc_content (fst (snd (PyTeX_write_document b w))) =
           (if last (doc_content b) = end_document then doc_content b
            else doc_content b @ [end_document])
   \<and> (path (document b) \<notin> refused w \<longrightarrow>
        fst (PyTeX_write_document b w) = Inr ()
        \<and> files (snd (snd (PyTeX_write_document b w))) (path (document b)) =
            Some (concat (doc_content (fst (snd (PyTeX_write_document b w))))))
   \<and> (0 < n \<longrightarrow>
        doc_content (fst (writes n b w)) = doc_content (fst (snd (PyTeX_write_document b w)))
        \<and> count_list (doc_content (fst (writes n b w))) end_document = 1
        \<and> last (doc_content (fst (writes n b w))) = end_document)
   \<and> (PyTeX_init p dt fs pt t a th d mt os = Inr b \<longrightarrow>
        doc_content (fst (snd (PyTeX_write_document b w))) = doc_content b @ [end_document]
        \<and> begin_document \<in> set (doc_content b)
        \<and> end_document \<notin> set (doc_content b))"
proof -
  have m: "marker_last_only (doc_content b)" using assms by (rule builder_state_marker)
  have ne: "doc_content b \<noteq> []" using m by (rule marker_last_only_nonempty)
  have w: "end_document \<notin> set (without_end (doc_content b))"
    using m by (simp add: marker_last_only_def)
  have c1: "doc_content (fst (snd (PyTeX_write_document b w))) =
           (if last (doc_content b) = end_document then doc_content b
            else doc_content b @ [end_document])"
    using ne by (simp add: PyTeX_write_document_def write_document_def Let_def)
  have c2: "path (document b) \<notin> refused w \<longrightarrow>
        fst (PyTeX_write_document b w) = Inr ()
        \<and> files (snd (snd (PyTeX_write_document b w))) (path (document b)) =
            Some (concat (doc_content (fst (snd (PyTeX_write_document b w)))))"
    using ne by (simp add: PyTeX_write_document_def write_document_def Let_def)
  have c3: "0 < n \<longrightarrow>
        doc_content (fst (writes n b w)) = doc_content (fst (snd (PyTeX_write_document b w)))
        \<and> count_list (doc_content (fst (writes n b w))) end_document = 1
        \<and> last (doc_content (fst (writes n b w))) = end_document"
  proof
    assume n: "0 < n"
    have l: "doc_content (fst (writes n b w)) = without_end (doc_content b) @ [end_document]"
      using writes_lines [OF m n] .
    have "count_list (without_end (doc_content b)) end_document = 0"
      using w by (simp add: count_list_0_iff)
    then show "doc_content (fst (writes n b w)) = doc_content (fst (snd (PyTeX_write_document b w)))
        \<and> count_list (doc_content (fst (writes n b w))) end_document = 1
        \<and> last (doc_content (fst (writes n b w))) = end_document"
      unfolding l PyTeX_write_document_lines [OF ne] by simp
  qed
  have c4: "PyTeX_init p dt fs pt t a th d mt os = Inr b \<longrightarrow>
        doc_content (fst (snd (PyTeX_write_document b w))) = doc_content b @ [end_document]
        \<and> begin_document \<in> set (doc_content b)
        \<and> end_document \<notin> set (doc_content b)"
  proof
    assume i: "PyTeX_init p dt fs pt t a th d mt os = Inr b"
    note f = start_new_document_no_end [OF PyTeX_init_lines [OF i]]
    show "doc_content (fst (snd (PyTeX_write_document b w))) = doc_content b @ [end_document]
        \<and> begin_document \<in> set (doc_content b)
        \<and> end_document \<notin> set (doc_content b)"
      using f by (simp add: PyTeX_write_document_lines [OF ne] without_end_idem)
  qed
  from c1 c2 c3 c4 show ?thesis by blast
qed

theorem write_document_closes_once_witness:
  "builder_state plain_article
   \<and> doc_content (fst (writes 3 plain_article \<lparr>files = Map.empty, refused = {}\<rparr>)) =
       doc_content plain_article @ [end_document]
   \<and> count_list (doc_content (fst (writes 3 plain_article \<lparr>files = Map.empty, refused = {}\<rparr>)))
       end_document = 1
   \<and> files (snd (snd (PyTeX_write_document plain_article \<lparr>files = Map.empty, refused = {}\<rparr>)))
       ''f.tex'' = Some (concat (doc_content plain_article @ [end_document]))"
proof -
  have s: "builder_state plain_article"
    using plain_article_init by (rule builder_state.constructed)
  have n: "(0::nat) < 3" by simp
  from write_document_closes_once [OF s, of "\<lparr>files = Map.empty, refused = {}\<rparr>" 3
      "''f.tex''" "''article''" 12 "''a4paper''" None None None None False "[]"]
    plain_article_init n s
  show ?thesis by (simp add: LaTeXDocument_init_def)
qed

lemma append_twice:
  assumes ne: "doc_content b \<noteq> []" and x: "x \<noteq> end_document"
    and a: "\<And>b'. doc_content b' \<noteq> [] \<Longrightarrow>
              doc_content (snd (append_content b' c)) = without_end (doc_content b') @ [x]"
  shows "doc_content (snd (append_content (snd (append_content b c)) c)) =
           without_end (doc_content b) @ [x, x]"
proof -
  have 1: "doc_content (snd (append_content b c)) = without_end (doc_content b) @ [x]"
    using a [OF ne] .
  then have "doc_content (snd (append_content b c)) \<noteq> []" by simp
  from a [OF this] show ?thesis unfolding 1 using x by (simp add: without_end_snoc)
qed

section \<open>Appending content\<close>

text \<open>
  C8, as amended. For every builder state and every content that is a string or a
  math expression, \<open>append_content\<close> returns without an error and (a) removes the last
  line if it is the closing marker; (b) for a math expression takes its content, a tab
  before it and a newline after it, between \<open>\begin{math}\<close> and \<open>\end{math}\<close> when
  the expression is inline and between \<open>\begin{equation}\<close> and \<open>\end{equation}\<close>
  otherwise, and takes a string as it is; (c) appends a newline unless the string ends
  with one already, and then one more newline; (d) pushes the result as the new last
  line, so that the last line is not the closing marker, and pushes the same entry a
  second time when called again with the same content. For a text run the call
  raises AttributeError after step (a) and pushes nothing.
\<close>

theorem append_content_steps:
  assumes "builder_state b"
  shows "without_end (doc_content b) =
           (if last (doc_content b) = end_document then butlast (doc_content b) else doc_content b)
   \<and> append_content b (Str s) =
       (Inr (), b\<lparr>doc_content := without_end (doc_content b)
                    @ [(if endswith s ''\<newline>'' then s else s @ ''\<newline>'') @ ''\<newline>'']\<rparr>)
   \<and> append_content b (Math m) =
       (Inr (), b\<lparr>doc_content := without_end (doc_content b)
          @ [(if inline m
              then bs # ''begin{math}\<newline>'' @ [tab] @ content m @ ''\<newline>'' @ bs # ''end{math}''
              else bs # ''begin{equation}\<newline>'' @ [tab] @ content m @ ''\<newline>'' @ bs # ''end{equation}'')
             @ ''\<newline>\<newline>'']\<rparr>)
   \<and> (c = Str s \<or> c = Math m \<longrightarrow>
        last (doc_content (snd (append_content b c))) \<noteq> end_document
        \<and> (\<exists>x. doc_content (snd (append_content b c)) = without_end (doc_content b) @ [x]
             \<and> doc_content (snd (append_content (snd (append_content b c)) c)) =
                 without_end (doc_content b) @ [x, x]))
   \<and> append_content b (Txt t) =
       (Inl AttributeError, b\<lparr>doc_content := without_end (doc_content b)\<rparr>)"
proof -
  have ne: "doc_content b \<noteq> []"
    using assms by (intro marker_last_only_nonempty builder_state_marker)
  have c5: "append_content b (Txt t) =
       (Inl AttributeError, b\<lparr>doc_content := without_end (doc_content b)\<rparr>)"
    using ne by (rule append_content_Txt)
  let ?xs = "(if endswith s ''\<newline>'' then s else s @ ''\<newline>'') @ ''\<newline>''"
  let ?xm = "(if inline m
              then bs # ''begin{math}\<newline>'' @ [tab] @ content m @ ''\<newline>'' @ bs # ''end{math}''
              else bs # ''begin{equation}\<newline>'' @ [tab] @ content m @ ''\<newline>'' @ bs # ''end{equation}'')
             @ ''\<newline>\<newline>''"
  have c1: "without_end (doc_content b) =
           (if last (doc_content b) = end_document then butlast (doc_content b) else doc_content b)"
    using ne by (simp add: without_end_def)
  have c2: "append_content b (Str s) = (Inr (), b\<lparr>doc_content := without_end (doc_content b) @ [?xs]\<rparr>)"
    using ne by (rule append_content_Str)
  have c3: "append_content b (Math m) = (Inr (), b\<lparr>doc_content := without_end (doc_content b) @ [?xm]\<rparr>)"
    using ne by (rule append_content_Math)
  have xs: "?xs \<noteq> end_document" by (rule newline_not_end)
  have xm: "?xm \<noteq> end_document" by (rule newlines_not_end)
  have s2: "doc_content (snd (append_content (snd (append_content b (Str s))) (Str s))) =
              without_end (doc_content b) @ [?xs, ?xs]"
    using ne xs
  proof (rule append_twice)
    fix b' :: PyTeX assume "doc_content b' \<noteq> []"
    then show "doc_content (snd (append_content b' (Str s))) = without_end (doc_content b') @ [?xs]"
      by (simp add: append_content_Str)
  qed
  have m2: "doc_content (snd (append_content (snd (append_content b (Math m))) (Math m))) =
              without_end (doc_content b) @ [?xm, ?xm]"
    using ne xm
  proof (rule append_twice)
    fix b' :: PyTeX assume "doc_content b' \<noteq> []"
    then show "doc_content (snd (append_content b' (Math m))) = without_end (doc_content b') @ [?xm]"
      by (simp add: append_content_Math)
  qed
  have c4: "c = Str s \<or> c = Math m \<longrightarrow>
        last (doc_content (snd (append_content b c))) \<noteq> end_document
        \<and> (\<exists>x. doc_content (snd (append_content b c)) = without_end (doc_content b) @ [x]
             \<and> doc_content (snd (append_content (snd (append_content b c)) c)) =
                 without_end (doc_content b) @ [x, x])"
  proof
    assume "c = Str s \<or> c = Math m"
    then show "last (doc_content (snd (append_content b c))) \<noteq> end_document
        \<and> (\<exists>x. doc_content (snd (append_content b c)) = without_end (doc_content b) @ [x]
             \<and> doc_content (snd (append_content (snd (append_content b c)) c)) =
                 without_end (doc_content b) @ [x, x])"
    proof
      assume c: "c = Str s"
      have "doc_content (snd (append_content b c)) = without_end (doc_content b) @ [?xs]"
        unfolding c c2 by simp
      then show ?thesis using xs s2 unfolding c by simp
    next
      assume c: "c = Math m"
      have "doc_content (snd (append_content b c)) = without_end (doc_content b) @ [?xm]"
        unfolding c c3 by simp
      then show ?thesis using xm m2 unfolding c by simp
    qed
  qed
  from c1 c2 c3 c4 c5 show ?thesis by blast
qed

theorem append_content_steps_witness:
  "builder_state plain_article
   \<and> append_content plain_article (Math \<lparr>content = ''x'', inline = True\<rparr>) =
       (Inr (), plain_article\<lparr>doc_content := doc_content plain_article
          @ [bs # ''begin{math}\<newline>'' @ [tab] @ ''x\<newline>'' @ bs # ''end{math}\<newline>\<newline>'']\<rparr>)
   \<and> append_content plain_article (Str ''abc'') =
       (Inr (), plain_article\<lparr>doc_content := doc_content plain_article @ [''abc\<newline>\<newline>'']\<rparr>)"
proof -
  have s: "builder_state plain_article"
    using plain_article_init by (rule builder_state.constructed)
  have w: "without_end (doc_content plain_article) = doc_content plain_article"
    by (simp add: without_end_def)
  from append_content_steps [OF s, of "''abc''" "\<lparr>content = ''x'', inline = True\<rparr>" "Str ''abc''"] s w
  show ?thesis by (simp add: endswith_def)
qed

text \<open>
  C8 as stated fails in two places: a text run is not used unchanged, since
  \<open>append_content\<close> raises AttributeError for it (a text run has no \<open>endswith\<close>) and
  pushes nothing; and a string that ends with two newlines is pushed with three, not
  cut to one newline and a blank line.
\<close>

theorem append_content_text_run_raises:
  "Text ''a'' False True False False = Inr \<lparr>text_content = bs # ''textbf{a}''\<rparr>
   \<and> PyTeX_init ''f.tex'' ''article'' 12 ''a4paper'' None None None None False [] = Inr plain_article
   \<and> append_content plain_article (Txt \<lparr>text_content = bs # ''textbf{a}''\<rparr>) =
       (Inl AttributeError, plain_article)
   \<and> append_content plain_article (Str ''a\<newline>\<newline>'') =
       (Inr (), plain_article\<lparr>doc_content := doc_content plain_article @ [''a\<newline>\<newline>\<newline>'']\<rparr>)"
proof -
  have w: "without_end (doc_content plain_article) = doc_content plain_article"
    by (simp add: without_end_def)
  have t: "Text ''a'' False True False False = Inr \<lparr>text_content = bs # ''textbf{a}''\<rparr>"
    by (simp add: Text_def LaTeXText_init_def percent_textbf)
  have a: "append_content plain_article (Txt \<lparr>text_content = bs # ''textbf{a}''\<rparr>) =
       (Inl AttributeError, plain_article)"
  proof -
    have "doc_content plain_article \<noteq> []" by simp
    from append_content_Txt [OF this, of "\<lparr>text_content = bs # ''textbf{a}''\<rparr>"]
    show ?thesis by (simp add: without_end_def)
  qed
  have b: "append_content plain_article (Str ''a\<newline>\<newline>'') =
       (Inr (), plain_article\<lparr>doc_content := doc_content plain_article @ [''a\<newline>\<newline>\<newline>'']\<rparr>)"
  proof -
    have "doc_content plain_article \<noteq> []" by simp
    from append_content_Str [OF this, of "''a\<newline>\<newline>''"]
    show ?thesis by (simp add: without_end_def endswith_def)
  qed
  from t plain_article_init a b show ?thesis by blast
qed

section \<open>Option flags\<close>

text \<open>
  C10. The document stores the set of the lowercase forms of the options it is given;
  two option lists that differ only in letter case give the same document, the same
  result of \<open>start_new_document\<close> and the same result of the builder's constructor.
\<close>

theorem opts_case_insensitive:
  "opts (LaTeXDocument_init p dt fs pt t a th d mt os) = lower ` set os
   \<and> (list_all2 same_up_to_case os os' \<longrightarrow>
        LaTeXDocument_init p dt fs pt t a th d mt os = LaTeXDocument_init p dt fs pt t a th d mt os'
        \<and> start_new_document (LaTeXDocument_init p dt fs pt t a th d mt os) =
            start_new_document (LaTeXDocument_init p dt fs pt t a th d mt os')
        \<and> PyTeX_init p dt fs pt t a th d mt os = PyTeX_init p dt fs pt t a th d mt os')"
proof -
  have 1: "opts (LaTeXDocument_init p dt fs pt t a th d mt os) = lower ` set os"
    by (simp add: LaTeXDocument_init_def)
  have 2: "list_all2 same_up_to_case os os' \<longrightarrow>
        LaTeXDocument_init p dt fs pt t a th d mt os = LaTeXDocument_init p dt fs pt t a th d mt os'"
  proof
    assume "list_all2 same_up_to_case os os'"
    then have "map lower os = map lower os'" by (rule same_up_to_case_map_lower)
    then show "LaTeXDocument_init p dt fs pt t a th d mt os = LaTeXDocument_init p dt fs pt t a th d mt os'"
      by (simp only: LaTeXDocument_init_def)
  qed
  from 1 2 show ?thesis by (auto simp: PyTeX_init_def)
qed

lemma lower_ABNT: "lower ''ABNT'' = ''abnt''" by code_simp
lemma lower_abnt: "lower ''abnt'' = ''abnt''" by code_simp

theorem opts_case_insensitive_witness:
  "list_all2 same_up_to_case [''ABNT''] [''abnt'']
   \<and> start_new_document
       (LaTeXDocument_init ''f.tex'' ''article'' 12 ''a4paper'' None None None None False [''ABNT'']) =
     start_new_document
       (LaTeXDocument_init ''f.tex'' ''article'' 12 ''a4paper'' None None None None False [''abnt''])
   \<and> start_new_document
       (LaTeXDocument_init ''f.tex'' ''article'' 12 ''a4paper'' None None None None False [''ABNT'']) =
     Inr [bs # ''documentclass[12pt, a4paper]{article}\<newline>\<newline>'',
          bs # ''usepackage[utf8]{inputenc}\<newline>'',
          usepackage_abntex2cite,
          ''\<newline>'',
          bs # ''begin{document}\<newline>'',
          bs # ''frenchspacing\<newline>\<newline>'']"
proof -
  have h: "list_all2 same_up_to_case [''ABNT''] [''abnt'']"
    by code_simp
  have e: "start_new_document
       (LaTeXDocument_init ''f.tex'' ''article'' 12 ''a4paper'' None None None None False [''abnt'']) =
     Inr [bs # ''documentclass[12pt, a4paper]{article}\<newline>\<newline>'',
          bs # ''usepackage[utf8]{inputenc}\<newline>'',
          usepackage_abntex2cite,
          ''\<newline>'',
          bs # ''begin{document}\<newline>'',
          bs # ''frenchspacing\<newline>\<newline>'']"
    by (simp add: start_new_document_eq LaTeXDocument_init_def lower_abnt doc_class_format_def
      str_int_12 percent_def nonempty_def package_lines_def title_lines_def)
  from opts_case_insensitive [of "''f.tex''" "''article''" 12 "''a4paper''" None None None None False
      "[''ABNT'']" "[''abnt'']"] h e
  show ?thesis by simp
qed

end
